theory Spec2Isabelle
  imports Complex_Main "HOL-Library.AList"
begin

section \<open>Data model of the violation engine\<close>

text \<open>
  The engine of \<^verbatim>\<open>violation_engine.py\<close> works on loosely typed Python values.
  A loaded rule document is whatever \<^verbatim>\<open>json.load\<close> returned, so it is modelled as a
  JSON value; a JSON object is the list of the items of the Python dict, in insertion
  order (the keys of a dict are distinct; no theorem here depends on it).
  In \<open>evaluate\<close> Python floats are idealised as real numbers (no rounding, no NaN, no
  infinity); the proximity test is rendered a second time with the rounding arithmetic
  as a parameter. Strings are lists of characters; \<open>upper\<close> and \<open>lower\<close> are what
  \<^verbatim>\<open>str.upper\<close> and \<^verbatim>\<open>str.lower\<close> do on strings of ASCII characters, and a name
  with other characters is not described by them.
\<close>

datatype json =
    JNull
  | JBool bool
  | JInt int
  | JFloat real
  | JStr string
  | JArr "json list"
  | JObj "(string \<times> json) list"

text \<open>
  The exceptions that the modelled code can raise; \<open>OtherError\<close> carries the name of
  any exception that has no constructor of its own.
\<close>

datatype py_error =
    AttributeError
  | OSError
  | ValueError
  | RecursionError
  | OverflowError
  | OtherError string

type_synonym bbox = "real \<times> real \<times> real \<times> real"

text \<open>
  A detection as \<^verbatim>\<open>detect_image\<close> builds it: a dict with exactly the keys
  \<^verbatim>\<open>class_name\<close>, \<^verbatim>\<open>condition\<close>, \<^verbatim>\<open>confidence\<close> and \<^verbatim>\<open>bbox\<close>, the last a list
  of four floats.
\<close>

record detection =
  class_name :: string
  condition :: string
  confidence :: real
  bbox :: bbox

text \<open>The dict that \<^verbatim>\<open>_lookup_condition\<close> appends for a matching entry.\<close>

record rule_match =
  standard :: string
  citation :: string
  description :: json
  severity :: json

text \<open>
  The two shapes of the \<^verbatim>\<open>evidence\<close> dict: keys \<^verbatim>\<open>bbox\<close> and \<^verbatim>\<open>class_name\<close> for a
  direct violation, keys \<^verbatim>\<open>person_bbox\<close> and \<^verbatim>\<open>forklift_bbox\<close> for a proximity one.
\<close>

datatype evidence =
    BoxEvidence bbox string
  | ProximityEvidence bbox bbox

text \<open>A violation is the match dict extended by \<^verbatim>\<open>confidence\<close> and \<^verbatim>\<open>evidence\<close>.\<close>

record violation = rule_match +
  v_confidence :: real
  evidence :: evidence

text \<open>The only attribute of a \<^verbatim>\<open>ViolationEngine\<close> object.\<close>

record engine =
  standards :: "(string \<times> json) list"

section \<open>String helpers\<close>

definition upper_char :: "char \<Rightarrow> char" where
  "upper_char c =
     (let n = (of_char c :: nat) in if 97 \<le> n \<and> n \<le> 122 then char_of (n - 32) else c)"

definition upper :: "string \<Rightarrow> string" where
  "upper s = map upper_char s"

definition lower_char :: "char \<Rightarrow> char" where
  "lower_char c =
     (let n = (of_char c :: nat) in if 65 \<le> n \<and> n \<le> 90 then char_of (n + 32) else c)"

definition lower :: "string \<Rightarrow> string" where
  "lower s = map lower_char s"

section \<open>Loading the standards\<close>

text \<open>
  The file system is an input of the constructor. Opening and parsing one file either
  returns the parsed document or raises: \<^verbatim>\<open>OSError\<close> when the file cannot be opened
  or read, \<^verbatim>\<open>ValueError\<close> when its bytes or its text do not decode (the decoder's
  \<^verbatim>\<open>JSONDecodeError\<close> and \<^verbatim>\<open>UnicodeDecodeError\<close> are such), \<^verbatim>\<open>RecursionError\<close>
  when the document is nested too deeply, or any other exception.
\<close>

datatype file_state = Raises py_error | Document json

text \<open>
  The states of the directory path, as \<^verbatim>\<open>pathlib\<close> tells them apart:
  \<^item> \<open>Missing\<close>: the path does not exist or is not a directory (\<^verbatim>\<open>is_dir\<close> is false);
  \<^item> \<open>NoPermission\<close>: it is a directory, and listing it raises \<^verbatim>\<open>PermissionError\<close>;
  \<^item> \<open>Inaccessible\<close>: examining the path raises an \<^verbatim>\<open>OSError\<close> that \<^verbatim>\<open>is_dir\<close>
    does not ignore (no search permission on a parent, a name that is too long, an I/O
    error);
  \<^item> \<open>Listing\<close>: it is a directory with these entries, in the order of the scan.
\<close>

datatype directory =
    Missing
  | NoPermission
  | Inaccessible
  | Listing "(string \<times> file_state) list"

definition ends_with :: "string \<Rightarrow> string \<Rightarrow> bool" where
  "ends_with suffix name =
     (length suffix \<le> length name \<and> drop (length name - length suffix) name = suffix)"

text \<open>
  \<^verbatim>\<open>Path.glob("*.json")\<close>: the selector of \<^verbatim>\<open>pathlib\<close> yields nothing when the path is
  not a directory, swallows the \<^verbatim>\<open>PermissionError\<close> of listing it, and lets the
  error of examining it through.
\<close>

definition glob_json :: "directory \<Rightarrow> py_error + (string \<times> file_state) list" where
  "glob_json d =
     (case d of
        Missing \<Rightarrow> Inr []
      | NoPermission \<Rightarrow> Inr []
      | Inaccessible \<Rightarrow> Inl OSError
      | Listing entries \<Rightarrow> Inr (filter (\<lambda>(name, f). ends_with ''.json'' name) entries))"

fun rfind_dot :: "string \<Rightarrow> nat option" where
  "rfind_dot [] = None"
| "rfind_dot (c # cs) =
     (case rfind_dot cs of
        Some i \<Rightarrow> Some (Suc i)
      | None \<Rightarrow> if c = CHR ''.'' then Some 0 else None)"

text \<open>\<^verbatim>\<open>Path.stem\<close>: the name without its last suffix.\<close>

definition stem :: "string \<Rightarrow> string" where
  "stem name =
     (case rfind_dot name of
        None \<Rightarrow> name
      | Some i \<Rightarrow> if 0 < i \<and> i < length name - 1 then take i name else name)"

text \<open>
  The loop of \<^verbatim>\<open>_load_standards\<close>. Assigning to a key of a dict replaces the value in
  place when the key is there and appends the item otherwise, which is what
  \<^const>\<open>AList.update\<close> does on the item list.
\<close>

fun load_standards :: "engine \<Rightarrow> (string \<times> file_state) list \<Rightarrow> py_error + engine" where
  "load_standards self [] = Inr self"
| "load_standards self ((json_file, f) # rest) =
     (case f of
        Raises e \<Rightarrow> Inl e
      | Document data \<Rightarrow>
          (let standard_name = lower (stem json_file)
           in load_standards
                (self\<lparr>standards := AList.update standard_name data (standards self)\<rparr>) rest))"

text \<open>
  \<^verbatim>\<open>ViolationEngine.__init__\<close>: an exception leaves the caller without an object.
  The glob is a generator, so its error comes when the loop asks for the first file.
\<close>

definition engine_init :: "directory \<Rightarrow> py_error + engine" where
  "engine_init standards_dir =
     (case glob_json standards_dir of
        Inl e \<Rightarrow> Inl e
      | Inr json_files \<Rightarrow> load_standards \<lparr>standards = []\<rparr> json_files)"

section \<open>Looking a condition up\<close>

text \<open>\<^verbatim>\<open>dict.get(key, default)\<close> on the item list of a dict.\<close>

definition dict_get :: "(string \<times> json) list \<Rightarrow> string \<Rightarrow> json \<Rightarrow> json" where
  "dict_get d k dflt = (case map_of d k of Some v \<Rightarrow> v | None \<Rightarrow> dflt)"

text \<open>
  The inner loop of \<^verbatim>\<open>_lookup_condition\<close> over the items of one standard.
  \<^verbatim>\<open>entry.get\<close> raises \<^verbatim>\<open>AttributeError\<close> on an entry that is not a dict.
\<close>

fun lookup_entries ::
  "string \<Rightarrow> string \<Rightarrow> (string \<times> json) list \<Rightarrow> rule_match list \<Rightarrow> py_error + rule_match list"
where
  "lookup_entries cond std_name [] matches = Inr matches"
| "lookup_entries cond std_name ((cit, entry) # rest) matches =
     (case entry of
        JObj attrs \<Rightarrow>
          if dict_get attrs ''condition'' JNull = JStr cond
          then lookup_entries cond std_name rest
                 (matches @ [\<lparr>standard = upper std_name, citation = cit,
                              description = dict_get attrs ''description'' (JStr ''''),
                              severity = dict_get attrs ''severity'' (JStr '''')\<rparr>])
          else lookup_entries cond std_name rest matches
      | _ \<Rightarrow> Inl AttributeError)"

text \<open>
  The outer loop over the standards; \<^verbatim>\<open>mapping.items()\<close> raises
  \<^verbatim>\<open>AttributeError\<close> on a document that is not a dict.
\<close>

fun lookup_standards ::
  "string \<Rightarrow> (string \<times> json) list \<Rightarrow> rule_match list \<Rightarrow> py_error + rule_match list"
where
  "lookup_standards cond [] matches = Inr matches"
| "lookup_standards cond ((std_name, mapping) # rest) matches =
     (case mapping of
        JObj items \<Rightarrow>
          (case lookup_entries cond std_name items matches of
             Inl e \<Rightarrow> Inl e
           | Inr matches' \<Rightarrow> lookup_standards cond rest matches')
      | _ \<Rightarrow> Inl AttributeError)"

text \<open>
  Every method takes the engine object and hands it back with its result, so that a
  write to an attribute would show in the returned object.
\<close>

definition lookup_condition ::
  "engine \<Rightarrow> string \<Rightarrow> (py_error + rule_match list) \<times> engine" where
  "lookup_condition self cond = (lookup_standards cond (standards self) [], self)"

section \<open>Evaluating detections\<close>

definition bbox_center :: "bbox \<Rightarrow> real \<times> real" where
  "bbox_center b = (case b of (x1, y1, x2, y2) \<Rightarrow> ((x1 + x2) / 2, (y1 + y2) / 2))"

definition euclidean_distance :: "real \<times> real \<Rightarrow> real \<times> real \<Rightarrow> real" where
  "euclidean_distance p1 p2 = sqrt ((fst p1 - fst p2)\<^sup>2 + (snd p1 - snd p2)\<^sup>2)"

text \<open>Python's \<^verbatim>\<open>min(a, b)\<close> keeps \<open>a\<close> unless \<open>b\<close> is smaller.\<close>

definition py_min :: "real \<Rightarrow> real \<Rightarrow> real" where
  "py_min a b = (if b < a then b else a)"

definition direct_violation :: "detection \<Rightarrow> rule_match \<Rightarrow> violation" where
  "direct_violation det m =
     \<lparr>standard = standard m, citation = citation m, description = description m,
      severity = severity m, v_confidence = confidence det,
      evidence = BoxEvidence (bbox det) (class_name det)\<rparr>"

definition proximity_violation :: "detection \<Rightarrow> detection \<Rightarrow> rule_match \<Rightarrow> violation" where
  "proximity_violation person forklift m =
     (let conf = py_min (confidence person) (confidence forklift)
      in \<lparr>standard = standard m, citation = citation m, description = description m,
          severity = severity m, v_confidence = conf,
          evidence = ProximityEvidence (bbox person) (bbox forklift)\<rparr>)"

text \<open>The loop \<^verbatim>\<open>for match in matches\<close> of the direct path.\<close>

fun append_direct :: "detection \<Rightarrow> rule_match list \<Rightarrow> violation list \<Rightarrow> violation list" where
  "append_direct det [] violations = violations"
| "append_direct det (m # ms) violations =
     append_direct det ms (violations @ [direct_violation det m])"

text \<open>The loop \<^verbatim>\<open>for det in detections\<close>.\<close>

fun evaluate_detections ::
  "engine \<Rightarrow> detection list \<Rightarrow> violation list \<Rightarrow> (py_error + violation list) \<times> engine"
where
  "evaluate_detections self [] violations = (Inr violations, self)"
| "evaluate_detections self (det # rest) violations =
     (case lookup_condition self (condition det) of
        (Inl e, self') \<Rightarrow> (Inl e, self')
      | (Inr matches, self') \<Rightarrow>
          evaluate_detections self' rest (append_direct det matches violations))"

text \<open>The loop \<^verbatim>\<open>for match in matches\<close> of the proximity path.\<close>

fun append_proximity ::
  "detection \<Rightarrow> detection \<Rightarrow> rule_match list \<Rightarrow> violation list \<Rightarrow> violation list" where
  "append_proximity person forklift [] violations = violations"
| "append_proximity person forklift (m # ms) violations =
     append_proximity person forklift ms (violations @ [proximity_violation person forklift m])"

text \<open>The loop \<^verbatim>\<open>for forklift in forklifts\<close>, for one person.\<close>

fun evaluate_forklifts ::
  "engine \<Rightarrow> detection \<Rightarrow> real \<times> real \<Rightarrow> detection list \<Rightarrow> violation list
     \<Rightarrow> (py_error + violation list) \<times> engine"
where
  "evaluate_forklifts self person p_center [] violations = (Inr violations, self)"
| "evaluate_forklifts self person p_center (forklift # rest) violations =
     (let f_center = bbox_center (bbox forklift);
          distance = euclidean_distance p_center f_center;
          threshold = 200
      in if distance < threshold
         then (case lookup_condition self ''forklift_pedestrian_proximity'' of
                 (Inl e, self') \<Rightarrow> (Inl e, self')
               | (Inr matches, self') \<Rightarrow>
                   evaluate_forklifts self' person p_center rest
                     (append_proximity person forklift matches violations))
         else evaluate_forklifts self person p_center rest violations)"

text \<open>The loop \<^verbatim>\<open>for person in persons\<close>.\<close>

fun evaluate_persons ::
  "engine \<Rightarrow> detection list \<Rightarrow> detection list \<Rightarrow> violation list
     \<Rightarrow> (py_error + violation list) \<times> engine"
where
  "evaluate_persons self [] forklifts violations = (Inr violations, self)"
| "evaluate_persons self (person # rest) forklifts violations =
     (let p_center = bbox_center (bbox person)
      in case evaluate_forklifts self person p_center forklifts violations of
           (Inl e, self') \<Rightarrow> (Inl e, self')
         | (Inr violations', self') \<Rightarrow> evaluate_persons self' rest forklifts violations')"

text \<open>\<^verbatim>\<open>ViolationEngine.evaluate\<close>.\<close>

definition evaluate ::
  "engine \<Rightarrow> detection list \<Rightarrow> (py_error + violation list) \<times> engine" where
  "evaluate self detections =
     (case evaluate_detections self detections [] of
        (Inl e, self') \<Rightarrow> (Inl e, self')
      | (Inr violations, self') \<Rightarrow>
          (let persons = filter (\<lambda>d. condition d = ''person'') detections;
               forklifts = filter (\<lambda>d. condition d = ''forklift'') detections
           in if persons \<noteq> [] \<and> forklifts \<noteq> []
              then evaluate_persons self' persons forklifts violations
              else (Inr violations, self')))"

section \<open>The proximity test in floating point\<close>








section \<open>The behaviour in closed form\<close>

text \<open>
  The definitions of this section follow the words of the design document rather than
  the loops of the code; the theorems below compare the two.
\<close>

definition is_object :: "json \<Rightarrow> bool" where
  "is_object j = (case j of JObj _ \<Rightarrow> True | _ \<Rightarrow> False)"

text \<open>
  A document has the documented shape when it is a mapping from citation identifiers to
  objects; a rule store has it when all of its documents do.
\<close>

definition well_shaped_standard :: "string \<times> json \<Rightarrow> bool" where
  "well_shaped_standard sm =
     (case snd sm of JObj items \<Rightarrow> list_all (\<lambda>ce. is_object (snd ce)) items | _ \<Rightarrow> False)"

definition well_shaped :: "(string \<times> json) list \<Rightarrow> bool" where
  "well_shaped stds = list_all well_shaped_standard stds"

text \<open>The matches that one entry, one standard and the whole store give for a condition.\<close>

definition entry_matches :: "string \<Rightarrow> string \<Rightarrow> string \<times> json \<Rightarrow> rule_match list" where
  "entry_matches cond std_name ce =
     (case snd ce of
        JObj attrs \<Rightarrow>
          if dict_get attrs ''condition'' JNull = JStr cond
          then [\<lparr>standard = upper std_name, citation = fst ce,
                 description = dict_get attrs ''description'' (JStr ''''),
                 severity = dict_get attrs ''severity'' (JStr '''')\<rparr>]
          else []
      | _ \<Rightarrow> [])"

definition standard_matches :: "string \<Rightarrow> string \<times> json \<Rightarrow> rule_match list" where
  "standard_matches cond sm =
     (case snd sm of
        JObj items \<Rightarrow> concat (map (entry_matches cond (fst sm)) items)
      | _ \<Rightarrow> [])"

definition rule_store_lookup :: "(string \<times> json) list \<Rightarrow> string \<Rightarrow> rule_match list" where
  "rule_store_lookup stds cond = concat (map (standard_matches cond) stds)"

text \<open>Step 1 of the evaluator: the direct violations, detection by detection.\<close>

definition direct_violations :: "(string \<times> json) list \<Rightarrow> detection list \<Rightarrow> violation list" where
  "direct_violations stds dets =
     concat (map (\<lambda>d. map (direct_violation d) (rule_store_lookup stds (condition d))) dets)"

text \<open>The proximity test on the centers of two boxes.\<close>

definition near :: "detection \<Rightarrow> detection \<Rightarrow> bool" where
  "near person forklift =
     (euclidean_distance (bbox_center (bbox person)) (bbox_center (bbox forklift)) < 200)"

definition persons_of :: "detection list \<Rightarrow> detection list" where
  "persons_of dets = filter (\<lambda>d. condition d = ''person'') dets"

definition forklifts_of :: "detection list \<Rightarrow> detection list" where
  "forklifts_of dets = filter (\<lambda>d. condition d = ''forklift'') dets"

text \<open>The qualifying pairs, persons in the outer position, in iteration order.\<close>

definition proximity_pairs :: "detection list \<Rightarrow> (detection \<times> detection) list" where
  "proximity_pairs dets =
     filter (\<lambda>pf. near (fst pf) (snd pf)) (List.product (persons_of dets) (forklifts_of dets))"

definition pair_violations ::
  "(string \<times> json) list \<Rightarrow> detection \<times> detection \<Rightarrow> violation list" where
  "pair_violations stds pf =
     map (proximity_violation (fst pf) (snd pf))
       (rule_store_lookup stds ''forklift_pedestrian_proximity'')"

text \<open>Step 2 of the evaluator: the compound violations, pair by pair.\<close>

definition compound_violations :: "(string \<times> json) list \<Rightarrow> detection list \<Rightarrow> violation list" where
  "compound_violations stds dets = concat (map (pair_violations stds) (proximity_pairs dets))"



text \<open>Whether some entry of the store is for the condition \<open>c\<close>.\<close>

definition entry_has_condition :: "string \<Rightarrow> string \<times> json \<Rightarrow> bool" where
  "entry_has_condition c ce =
     (case snd ce of JObj attrs \<Rightarrow> map_of attrs ''condition'' = Some (JStr c) | _ \<Rightarrow> False)"

definition condition_present :: "(string \<times> json) list \<Rightarrow> string \<Rightarrow> bool" where
  "condition_present stds c =
     list_ex (\<lambda>sm. case snd sm of JObj items \<Rightarrow> list_ex (entry_has_condition c) items
                     | _ \<Rightarrow> False) stds"

text \<open>Direct violations are those with single-box evidence.\<close>

definition is_direct :: "violation \<Rightarrow> bool" where
  "is_direct v = (case evidence v of BoxEvidence b c \<Rightarrow> True | ProximityEvidence p f \<Rightarrow> False)"

text \<open>
  The capital of a character: the letters \<open>a\<close> to \<open>z\<close> go to \<open>A\<close> to \<open>Z\<close> by the
  table, every other character stays. On a string of ASCII characters this is what
  \<^verbatim>\<open>str.upper\<close> does.
\<close>

definition capital :: "char \<Rightarrow> char" where
  "capital c =
     (case map_of (zip ''abcdefghijklmnopqrstuvwxyz'' ''ABCDEFGHIJKLMNOPQRSTUVWXYZ'') c of
        Some C \<Rightarrow> C
      | None \<Rightarrow> c)"

section \<open>Concrete rule stores and detections\<close>

definition box_around :: "real \<Rightarrow> real \<Rightarrow> bbox" where
  "box_around cx cy = (cx - 20, cy - 40, cx + 20, cy + 40)"

definition person_at :: "real \<Rightarrow> real \<Rightarrow> real \<Rightarrow> detection" where
  "person_at conf cx cy =
     \<lparr>class_name = ''person'', condition = ''person'', confidence = conf,
      bbox = box_around cx cy\<rparr>"

definition forklift_at :: "real \<Rightarrow> real \<Rightarrow> real \<Rightarrow> detection" where
  "forklift_at conf cx cy =
     \<lparr>class_name = ''forklift'', condition = ''forklift'', confidence = conf,
      bbox = box_around cx cy\<rparr>"

definition hardhat_detection :: "string \<Rightarrow> detection" where
  "hardhat_detection cn =
     \<lparr>class_name = cn, condition = ''hardhat_missing'', confidence = 91 / 100,
      bbox = (10, 10, 50, 80)\<rparr>"

definition hardhat_document :: json where
  "hardhat_document =
     JObj [(''1926.100'',
            JObj [(''condition'', JStr ''hardhat_missing''),
                  (''description'', JStr ''Head protection required''),
                  (''severity'', JStr ''high'')])]"

definition hardhat_rules :: engine where
  "hardhat_rules = \<lparr>standards = [(''osha'', hardhat_document)]\<rparr>"

definition proximity_document :: json where
  "proximity_document =
     JObj [(''1910.178'',
            JObj [(''condition'', JStr ''forklift_pedestrian_proximity''),
                  (''description'', JStr ''Struck-by hazard'')])]"

definition site_rules :: engine where
  "site_rules = \<lparr>standards = [(''osha'', hardhat_document), (''site'', proximity_document)]\<rparr>"

definition stationed :: "string \<Rightarrow> real \<Rightarrow> detection" where
  "stationed c x = \<lparr>class_name = c, condition = c, confidence = 1, bbox = (x, 0, x, 0)\<rparr>"

text \<open>A store whose one document is a JSON array, as \<^verbatim>\<open>json.load\<close> accepts it.\<close>

definition unshaped_rules :: engine where
  "unshaped_rules = \<lparr>standards = [(''osha'', JArr [])]\<rparr>"

section \<open>The loops and their closed forms\<close>

lemma lookup_entries_eq:
  "lookup_entries cond n items acc =
     (if list_all (\<lambda>ce. is_object (snd ce)) items
      then Inr (acc @ concat (map (entry_matches cond n) items))
      else Inl AttributeError)"
  by (induction items arbitrary: acc)
     (auto simp: is_object_def entry_matches_def split: json.splits)

lemma lookup_standards_eq:
  "lookup_standards cond stds acc =
     (if well_shaped stds then Inr (acc @ rule_store_lookup stds cond) else Inl AttributeError)"
  by (induction stds arbitrary: acc)
     (auto simp: well_shaped_def well_shaped_standard_def rule_store_lookup_def
        standard_matches_def lookup_entries_eq split: json.splits)

lemma lookup_condition_eq:
  "lookup_condition self cond =
     (if well_shaped (standards self) then Inr (rule_store_lookup (standards self) cond)
      else Inl AttributeError, self)"
  by (simp add: lookup_condition_def lookup_standards_eq)

lemma append_direct_eq: "append_direct det ms vs = vs @ map (direct_violation det) ms"
  by (induction ms arbitrary: vs) auto

lemma append_proximity_eq:
  "append_proximity p f ms vs = vs @ map (proximity_violation p f) ms"
  by (induction ms arbitrary: vs) auto

lemma evaluate_detections_eq:
  "evaluate_detections self dets vs =
     (if dets = [] \<or> well_shaped (standards self)
      then Inr (vs @ direct_violations (standards self) dets)
      else Inl AttributeError, self)"
  by (induction dets arbitrary: vs)
     (auto simp: direct_violations_def lookup_condition_eq append_direct_eq)

lemma evaluate_forklifts_eq:
  "well_shaped (standards self) \<Longrightarrow>
   evaluate_forklifts self p (bbox_center (bbox p)) fs vs =
     (Inr (vs @ concat (map (pair_violations (standards self))
                          (filter (\<lambda>pf. near (fst pf) (snd pf)) (map (Pair p) fs)))), self)"
  by (induction fs arbitrary: vs)
     (auto simp: Let_def lookup_condition_eq append_proximity_eq near_def pair_violations_def)

lemma evaluate_persons_eq:
  "well_shaped (standards self) \<Longrightarrow>
   evaluate_persons self ps fs vs =
     (Inr (vs @ concat (map (pair_violations (standards self))
                          (filter (\<lambda>pf. near (fst pf) (snd pf)) (List.product ps fs)))), self)"
  by (induction ps arbitrary: vs)
     (auto simp: Let_def evaluate_forklifts_eq)

lemma product_Nil_right: "List.product xs [] = []"
  by (induction xs) auto

lemma compound_violations_guard:
  "persons_of dets = [] \<or> forklifts_of dets = [] \<Longrightarrow> compound_violations stds dets = []"
  by (auto simp: compound_violations_def proximity_pairs_def product_Nil_right)

lemma evaluate_eq:
  "evaluate self dets =
     (if dets = [] \<or> well_shaped (standards self)
      then Inr (direct_violations (standards self) dets @ compound_violations (standards self) dets)
      else Inl AttributeError, self)"
proof (cases "dets = [] \<or> well_shaped (standards self)")
  case False
  then show ?thesis
    by (simp add: evaluate_def evaluate_detections_eq)
next
  case ok: True
  show ?thesis
  proof (cases "persons_of dets \<noteq> [] \<and> forklifts_of dets \<noteq> []")
    case True
    then have "dets \<noteq> []"
      by (auto simp: persons_of_def)
    with ok have ws: "well_shaped (standards self)"
      by simp
    from True ws show ?thesis
      by (simp add: evaluate_def evaluate_detections_eq evaluate_persons_eq
            compound_violations_def proximity_pairs_def persons_of_def forklifts_of_def)
  next
    case False
    then have "compound_violations (standards self) dets = []"
      by (intro compound_violations_guard) auto
    with False ok show ?thesis
      by (auto simp: evaluate_def evaluate_detections_eq persons_of_def forklifts_of_def)
  qed
qed

section \<open>Evaluation of the concrete inputs\<close>

lemma upper_osha: "upper ''osha'' = ''OSHA''"
  by code_simp

lemma upper_site: "upper ''site'' = ''SITE''"
  by code_simp

lemma distance_below_iff:
  "euclidean_distance p q < 200 \<longleftrightarrow> (fst p - fst q)\<^sup>2 + (snd p - snd q)\<^sup>2 < 40000"
proof -
  have "sqrt 40000 = 200"
    using real_sqrt_abs [of 200] by simp
  then show ?thesis
    unfolding euclidean_distance_def using real_sqrt_less_iff [of _ 40000] by simp
qed

lemma site_rules_well_shaped: "well_shaped (standards site_rules)"
  by (simp add: site_rules_def well_shaped_def well_shaped_standard_def is_object_def
        hardhat_document_def proximity_document_def)

lemma site_lookup_hardhat:
  "rule_store_lookup (standards site_rules) ''hardhat_missing'' =
     [\<lparr>standard = ''OSHA'', citation = ''1926.100'',
       description = JStr ''Head protection required'', severity = JStr ''high''\<rparr>]"
  by (simp add: site_rules_def rule_store_lookup_def standard_matches_def entry_matches_def
        hardhat_document_def proximity_document_def dict_get_def upper_osha)

lemma site_lookup_proximity:
  "rule_store_lookup (standards site_rules) ''forklift_pedestrian_proximity'' =
     [\<lparr>standard = ''SITE'', citation = ''1910.178'',
       description = JStr ''Struck-by hazard'', severity = JStr ''''\<rparr>]"
  by (simp add: site_rules_def rule_store_lookup_def standard_matches_def entry_matches_def
        hardhat_document_def proximity_document_def dict_get_def upper_site)

lemma site_lookup_person: "rule_store_lookup (standards site_rules) ''person'' = []"
  by (simp add: site_rules_def rule_store_lookup_def standard_matches_def entry_matches_def
        hardhat_document_def proximity_document_def dict_get_def)

lemma site_lookup_forklift: "rule_store_lookup (standards site_rules) ''forklift'' = []"
  by (simp add: site_rules_def rule_store_lookup_def standard_matches_def entry_matches_def
        hardhat_document_def proximity_document_def dict_get_def)

section \<open>Frame: the rule store\<close>

text \<open>
  Claim C8: evaluation never mutates the rule store. The engine object that comes back
  from \<^const>\<open>evaluate\<close> (and from every lookup) is the one that went in, whether
  the call returns or raises; its only attribute is the loaded standards mapping, so
  nothing is written and no result is cached: a later call on the returned engine behaves
  as on the original one.
\<close>

theorem evaluate_leaves_engine_unchanged:
  "snd (evaluate self dets) = self
   \<and> snd (lookup_condition self c) = self
   \<and> evaluate (snd (evaluate self dets)) dets' = evaluate self dets'"
  by (simp add: evaluate_eq lookup_condition_def)

section \<open>Order of the violations\<close>

text \<open>
  Claim C4: the violations come in a fixed order. When every lookup returns, say
  \<open>look c\<close> for the condition \<open>c\<close>, the result of \<^const>\<open>evaluate\<close> is first the
  direct violations, detection by detection in input order and within one detection in
  the order of its lookup, and then the compound violations, pair by pair in iteration
  order (persons outermost, both in input order) and within one pair in the order of the
  lookup of the synthesized condition. As \<^const>\<open>evaluate\<close> is a function of the
  engine and the detections, equal inputs give this same list again.
\<close>

theorem evaluate_order:
  assumes "\<And>c. fst (lookup_condition self c) = Inr (look c)"
  shows "fst (evaluate self dets) =
           Inr (concat (map (\<lambda>d. map (direct_violation d) (look (condition d))) dets)
                @ concat (map (\<lambda>(p, f). map (proximity_violation p f)
                                           (look ''forklift_pedestrian_proximity''))
                     (filter (\<lambda>(p, f). euclidean_distance (bbox_center (bbox p))
                                         (bbox_center (bbox f)) < 200)
                        (List.product (filter (\<lambda>d. condition d = ''person'') dets)
                                      (filter (\<lambda>d. condition d = ''forklift'') dets)))))"
proof -
  from assms [of "[]"] have ws: "well_shaped (standards self)"
    by (simp add: lookup_condition_eq split: if_splits)
  with assms have look: "look c = rule_store_lookup (standards self) c" for c
    using assms [of c] by (simp add: lookup_condition_eq)
  have "(\<lambda>pf. near (fst pf) (snd pf)) =
        (\<lambda>(p, f). euclidean_distance (bbox_center (bbox p)) (bbox_center (bbox f)) < 200)"
    by (auto simp: near_def)
  moreover have "pair_violations (standards self) =
        (\<lambda>(p, f). map (proximity_violation p f) (look ''forklift_pedestrian_proximity''))"
    by (auto simp: pair_violations_def look)
  ultimately show ?thesis
    using ws
    by (simp add: evaluate_eq direct_violations_def compound_violations_def
          proximity_pairs_def persons_of_def forklifts_of_def look)
qed

theorem evaluate_order_witness:
  "fst (evaluate site_rules
          [person_at (8 / 10) 100 100, hardhat_detection ''helmetless'',
           forklift_at (6 / 10) 150 100, forklift_at (9 / 10) 700 100,
           person_at (7 / 10) 160 100]) =
     Inr [direct_violation (hardhat_detection ''helmetless'')
            \<lparr>standard = ''OSHA'', citation = ''1926.100'',
             description = JStr ''Head protection required'', severity = JStr ''high''\<rparr>,
          proximity_violation (person_at (8 / 10) 100 100) (forklift_at (6 / 10) 150 100)
            \<lparr>standard = ''SITE'', citation = ''1910.178'',
             description = JStr ''Struck-by hazard'', severity = JStr ''''\<rparr>,
          proximity_violation (person_at (7 / 10) 160 100) (forklift_at (6 / 10) 150 100)
            \<lparr>standard = ''SITE'', citation = ''1910.178'',
             description = JStr ''Struck-by hazard'', severity = JStr ''''\<rparr>]"
proof -
  have h: "fst (lookup_condition site_rules c) = Inr (rule_store_lookup (standards site_rules) c)"
    for c
    by (simp add: lookup_condition_eq site_rules_well_shaped)
  show ?thesis
    unfolding evaluate_order [of site_rules "rule_store_lookup (standards site_rules)", OF h]
    by (simp add: person_at_def forklift_at_def hardhat_detection_def box_around_def
          bbox_center_def distance_below_iff site_lookup_proximity site_lookup_person
          site_lookup_forklift site_lookup_hardhat)
qed

section \<open>Facts shared by the proximity claims\<close>

lemma evidence_direct_violation [simp]:
  "evidence (direct_violation d m) = BoxEvidence (bbox d) (class_name d)"
  by (simp add: direct_violation_def)

lemma evidence_proximity_violation [simp]:
  "evidence (proximity_violation p f m) = ProximityEvidence (bbox p) (bbox f)"
  by (simp add: proximity_violation_def)

lemma confidence_proximity_violation [simp]:
  "v_confidence (proximity_violation p f m) = min (confidence p) (confidence f)"
  by (simp add: proximity_violation_def py_min_def min_def)

lemma near_bbox_cong: "bbox p = bbox p' \<Longrightarrow> bbox f = bbox f' \<Longrightarrow> near p f = near p' f'"
  by (simp add: near_def)

lemma in_proximity_pairs:
  "(p, f) \<in> set (proximity_pairs dets) \<longleftrightarrow>
     p \<in> set dets \<and> condition p = ''person'' \<and> f \<in> set dets \<and> condition f = ''forklift''
     \<and> near p f"
  by (auto simp: proximity_pairs_def persons_of_def forklifts_of_def)

lemma in_compound_violations:
  "v \<in> set (compound_violations stds dets) \<longleftrightarrow>
     (\<exists>p f m. (p, f) \<in> set (proximity_pairs dets)
        \<and> m \<in> set (rule_store_lookup stds ''forklift_pedestrian_proximity'')
        \<and> v = proximity_violation p f m)"
  by (force simp: compound_violations_def pair_violations_def)

lemma in_direct_violations:
  "v \<in> set (direct_violations stds dets) \<longleftrightarrow>
     (\<exists>d m. d \<in> set dets \<and> m \<in> set (rule_store_lookup stds (condition d))
        \<and> v = direct_violation d m)"
  by (auto simp: direct_violations_def)

lemma evaluate_Inr_nonempty:
  assumes "fst (evaluate self dets) = Inr vs" and "dets \<noteq> []"
  shows "well_shaped (standards self)"
    and "vs = direct_violations (standards self) dets @ compound_violations (standards self) dets"
  using assms by (auto simp: evaluate_eq split: if_splits)

lemma person_at_sel:
  "condition (person_at c x y) = ''person''"
  "confidence (person_at c x y) = c"
  "bbox (person_at c x y) = box_around x y"
  by (simp_all add: person_at_def)

lemma forklift_at_sel:
  "condition (forklift_at c x y) = ''forklift''"
  "confidence (forklift_at c x y) = c"
  "bbox (forklift_at c x y) = box_around x y"
  by (simp_all add: forklift_at_def)

lemma near_at:
  "near (person_at c x y) (forklift_at c' x' y') \<longleftrightarrow> (x - x')\<^sup>2 + (y - y')\<^sup>2 < 40000"
  by (simp add: near_def distance_below_iff person_at_def forklift_at_def box_around_def
        bbox_center_def)

lemma site_rules_pair:
  assumes "condition p = ''person''" and "condition f = ''forklift''"
  shows "fst (evaluate site_rules [p, f]) =
           Inr (if near p f
                then [proximity_violation p f
                        \<lparr>standard = ''SITE'', citation = ''1910.178'',
                         description = JStr ''Struck-by hazard'', severity = JStr ''''\<rparr>]
                else [])"
  using assms
  by (simp add: evaluate_eq site_rules_well_shaped direct_violations_def
        compound_violations_def proximity_pairs_def persons_of_def forklifts_of_def
        pair_violations_def site_lookup_proximity site_lookup_person site_lookup_forklift)

lemma stationed_sel:
  "condition (stationed c x) = c"
  "bbox (stationed c x) = (x, 0, x, 0)"
  by (simp_all add: stationed_def)

lemma near_stationed: "0 \<le> x \<Longrightarrow> near (stationed c 0) (stationed c' x) \<longleftrightarrow> x < 200"
proof -
  assume "0 \<le> x"
  then have "x\<^sup>2 < 40000 \<longleftrightarrow> x < 200"
    using power2_less_imp_less [of x 200] power_strict_mono [of x 200 2] by auto
  then show ?thesis
    by (simp add: near_def distance_below_iff stationed_def bbox_center_def)
qed

section \<open>The proximity test\<close>

text \<open>
  Claim C2: the confidence of every compound violation that \<^const>\<open>evaluate\<close> emits is
  the minimum of the confidences of the person and the forklift that contributed it:
  each violation with two-box evidence comes from a person and a forklift of the input
  with these boxes, within the threshold, and carries the smaller of their confidences.
\<close>

theorem compound_confidence_is_minimum:
  assumes ev: "fst (evaluate self dets) = Inr vs"
    and v: "v \<in> set vs" "evidence v = ProximityEvidence pb fb"
  shows "\<exists>p f. p \<in> set dets \<and> condition p = ''person'' \<and> bbox p = pb
           \<and> f \<in> set dets \<and> condition f = ''forklift'' \<and> bbox f = fb
           \<and> euclidean_distance (bbox_center pb) (bbox_center fb) < 200
           \<and> v_confidence v = min (confidence p) (confidence f)"
proof -
  from ev v(1) have ne: "dets \<noteq> []"
    by (auto simp: evaluate_eq direct_violations_def compound_violations_def
          proximity_pairs_def persons_of_def)
  note vs = evaluate_Inr_nonempty(2) [OF ev ne]
  from v have "v \<in> set (compound_violations (standards self) dets)"
    by (auto simp: vs in_direct_violations)
  then obtain p f m where pair: "(p, f) \<in> set (proximity_pairs dets)"
    and v': "v = proximity_violation p f m"
    by (auto simp: in_compound_violations)
  from v(2) v' have "bbox p = pb" "bbox f = fb"
    by simp_all
  with pair v' show ?thesis
    by (intro exI [of _ p] exI [of _ f]) (auto simp: in_proximity_pairs near_def)
qed

theorem compound_confidence_is_minimum_witness:
  "fst (evaluate site_rules [person_at (8 / 10) 100 100, forklift_at (6 / 10) 150 100]) =
     Inr [\<lparr>standard = ''SITE'', citation = ''1910.178'',
           description = JStr ''Struck-by hazard'', severity = JStr '''',
           v_confidence = 6 / 10,
           evidence = ProximityEvidence (box_around 100 100) (box_around 150 100)\<rparr>]
   \<and> (6 / 10 :: real) = min (8 / 10) (6 / 10)
   \<and> (6 / 10 :: real) \<noteq> max (8 / 10) (6 / 10)
   \<and> (6 / 10 :: real) \<noteq> (8 / 10 + 6 / 10) / 2"
proof -
  let ?p = "person_at (8 / 10) 100 100"
  let ?f = "forklift_at (6 / 10) 150 100"
  let ?v = "\<lparr>standard = ''SITE'', citation = ''1910.178'',
             description = JStr ''Struck-by hazard'', severity = JStr '''',
             v_confidence = 6 / 10,
             evidence = ProximityEvidence (box_around 100 100) (box_around 150 100)\<rparr>"
  have ev: "fst (evaluate site_rules [?p, ?f]) = Inr [?v]"
    by (simp add: site_rules_pair person_at_sel forklift_at_sel near_at
          proximity_violation_def py_min_def)
  have "\<exists>p f. p \<in> set [?p, ?f] \<and> condition p = ''person''
          \<and> bbox p = box_around 100 100
          \<and> f \<in> set [?p, ?f] \<and> condition f = ''forklift'' \<and> bbox f = box_around 150 100
          \<and> euclidean_distance (bbox_center (box_around 100 100))
               (bbox_center (box_around 150 100)) < 200
          \<and> v_confidence ?v = min (confidence p) (confidence f)"
    by (rule compound_confidence_is_minimum [OF ev]) simp_all
  then have "(6 / 10 :: real) = min (8 / 10) (6 / 10)"
    by (auto simp: person_at_def forklift_at_def)
  with ev show ?thesis
    by simp
qed

text \<open>
  Claim C7, as stated: the threshold is supplied by the caller and matching is decided
  against the caller's value. The method takes no threshold: with a caller who means
  100, a person and a forklift 150 apart are still reported.
\<close>

theorem caller_threshold_ignored:
  "fst (evaluate site_rules [person_at (8 / 10) 100 100, forklift_at (6 / 10) 250 100]) =
     Inr [\<lparr>standard = ''SITE'', citation = ''1910.178'',
           description = JStr ''Struck-by hazard'', severity = JStr '''',
           v_confidence = 6 / 10,
           evidence = ProximityEvidence (box_around 100 100) (box_around 250 100)\<rparr>]
   \<and> \<not> euclidean_distance (bbox_center (box_around 100 100))
          (bbox_center (box_around 250 100)) < 100"
proof -
  have "\<not> sqrt 22500 < (100 :: real)"
    using real_sqrt_abs [of "150 :: real"] by simp
  then show ?thesis
    by (simp add: site_rules_pair person_at_sel forklift_at_sel near_at
          proximity_violation_def py_min_def)
       (simp add: euclidean_distance_def bbox_center_def box_around_def)
qed

text \<open>
  Claim C7, amended: the threshold is the constant 200 inside \<^const>\<open>evaluate\<close>.
  On a store with one entry for the synthesized condition, the decision for all pairs of
  a person and a forklift agrees with the comparison of their distance against \<open>t\<close>
  exactly when \<open>t\<close> is 200.
\<close>

theorem threshold_fixed_at_200:
  "(\<forall>p f. condition p = ''person'' \<and> condition f = ''forklift'' \<longrightarrow>
      (fst (evaluate site_rules [p, f]) \<noteq> Inr []) =
      (euclidean_distance (bbox_center (bbox p)) (bbox_center (bbox f)) < t))
   \<longleftrightarrow> t = 200"
proof
  assume a: "\<forall>p f. condition p = ''person'' \<and> condition f = ''forklift'' \<longrightarrow>
      (fst (evaluate site_rules [p, f]) \<noteq> Inr []) =
      (euclidean_distance (bbox_center (bbox p)) (bbox_center (bbox f)) < t)"
  have d: "euclidean_distance (bbox_center (0, 0, 0, 0)) (bbox_center (x, 0, x, 0)) = x"
    if "0 \<le> x" for x
    using that by (simp add: euclidean_distance_def bbox_center_def)
  have key: "(x < 200) = (x < t)" if "0 \<le> x" for x
  proof -
    from a have "(fst (evaluate site_rules [stationed ''person'' 0, stationed ''forklift'' x])
            \<noteq> Inr []) =
        (euclidean_distance (bbox_center (bbox (stationed ''person'' 0)))
           (bbox_center (bbox (stationed ''forklift'' x))) < t)"
      by (simp add: stationed_sel)
    with that show ?thesis
      by (simp add: d site_rules_pair near_stationed stationed_sel split: if_splits)
  qed
  from key [of 200] have "t \<le> 200"
    by simp
  moreover have "\<not> t < 200"
  proof
    assume "t < 200"
    then have "max t 0 < 200" and "\<not> max t 0 < t"
      by simp_all
    with key [of "max t 0"] show False
      by simp
  qed
  ultimately show "t = 200"
    by simp
next
  assume "t = 200"
  then show "\<forall>p f. condition p = ''person'' \<and> condition f = ''forklift'' \<longrightarrow>
      (fst (evaluate site_rules [p, f]) \<noteq> Inr []) =
      (euclidean_distance (bbox_center (bbox p)) (bbox_center (bbox f)) < t)"
    by (simp add: site_rules_pair near_def)
qed

theorem threshold_fixed_at_200_witness:
  "condition (person_at (8 / 10) 100 100) = ''person''
   \<and> condition (forklift_at (6 / 10) 250 100) = ''forklift''
   \<and> fst (evaluate site_rules [person_at (8 / 10) 100 100, forklift_at (6 / 10) 250 100])
       \<noteq> Inr []
   \<and> euclidean_distance (bbox_center (bbox (person_at (8 / 10) 100 100)))
         (bbox_center (bbox (forklift_at (6 / 10) 250 100))) < 200"
proof -
  have c: "condition (person_at (8 / 10) 100 100) = ''person''
      \<and> condition (forklift_at (6 / 10) 250 100) = ''forklift''"
    by (simp add: person_at_sel forklift_at_sel)
  have "fst (evaluate site_rules [person_at (8 / 10) 100 100, forklift_at (6 / 10) 250 100])
      \<noteq> Inr []"
    by (simp add: site_rules_pair person_at_sel forklift_at_sel near_at)
  with c threshold_fixed_at_200 [of 200] show ?thesis
    by blast
qed

section \<open>Facts about lookups\<close>

lemma condition_test_iff:
  "dict_get attrs ''condition'' JNull = JStr c \<longleftrightarrow> map_of attrs ''condition'' = Some (JStr c)"
  by (simp add: dict_get_def split: option.splits)

lemma entry_matches_object:
  "entry_matches c n (cit, JObj attrs) =
     (if map_of attrs ''condition'' = Some (JStr c)
      then [\<lparr>standard = upper n, citation = cit,
             description = dict_get attrs ''description'' (JStr ''''),
             severity = dict_get attrs ''severity'' (JStr '''')\<rparr>]
      else [])"
  by (simp add: entry_matches_def condition_test_iff)

lemma in_rule_store_lookup:
  assumes "(n, JObj items) \<in> set stds" and "(cit, JObj attrs) \<in> set items"
    and "map_of attrs ''condition'' = Some (JStr c)"
  shows "\<lparr>standard = upper n, citation = cit,
          description = dict_get attrs ''description'' (JStr ''''),
          severity = dict_get attrs ''severity'' (JStr '''')\<rparr> \<in> set (rule_store_lookup stds c)"
proof -
  from assms(2,3) have "\<lparr>standard = upper n, citation = cit,
          description = dict_get attrs ''description'' (JStr ''''),
          severity = dict_get attrs ''severity'' (JStr '''')\<rparr>
        \<in> set (standard_matches c (n, JObj items))"
    by (force simp: standard_matches_def entry_matches_object)
  with assms(1) show ?thesis
    unfolding rule_store_lookup_def by auto
qed

lemma hardhat_rules_well_shaped: "well_shaped (standards hardhat_rules)"
  by (simp add: hardhat_rules_def well_shaped_def well_shaped_standard_def is_object_def
        hardhat_document_def)

lemma hardhat_lookup:
  "rule_store_lookup (standards hardhat_rules) ''hardhat_missing'' =
     [\<lparr>standard = ''OSHA'', citation = ''1926.100'',
       description = JStr ''Head protection required'', severity = JStr ''high''\<rparr>]"
  by (simp add: hardhat_rules_def rule_store_lookup_def standard_matches_def entry_matches_def
        hardhat_document_def dict_get_def upper_osha)

lemma hardhat_detection_sel:
  "condition (hardhat_detection cn) = ''hardhat_missing''"
  "confidence (hardhat_detection cn) = 91 / 100"
  "bbox (hardhat_detection cn) = (10, 10, 50, 80)"
  "class_name (hardhat_detection cn) = cn"
  by (simp_all add: hardhat_detection_def)

lemma evaluate_single:
  "well_shaped (standards self) \<Longrightarrow>
   fst (evaluate self [d]) =
     Inr (map (direct_violation d) (rule_store_lookup (standards self) (condition d)))"
proof -
  assume ws: "well_shaped (standards self)"
  have "persons_of [d] = [] \<or> forklifts_of [d] = []"
    by (auto simp: persons_of_def forklifts_of_def)
  then have "compound_violations (standards self) [d] = []"
    by (rule compound_violations_guard)
  with ws show ?thesis
    by (simp add: evaluate_eq direct_violations_def)
qed

lemma well_shaped_insert_entry:
  "well_shaped (pre @ (n, JObj (items1 @ (cit, JObj attrs) # items2)) # post)
     = well_shaped (pre @ (n, JObj (items1 @ items2)) # post)"
  by (simp add: well_shaped_def well_shaped_standard_def is_object_def)

lemma rule_store_lookup_insert_entry:
  "rule_store_lookup (pre @ (n, JObj (items1 @ (cit, JObj attrs) # items2)) # post) c =
     (rule_store_lookup pre c @ concat (map (entry_matches c n) items1))
     @ entry_matches c n (cit, JObj attrs)
     @ (concat (map (entry_matches c n) items2) @ rule_store_lookup post c)"
  by (simp add: rule_store_lookup_def standard_matches_def)

lemma rule_store_lookup_without_entry:
  "rule_store_lookup (pre @ (n, JObj (items1 @ items2)) # post) c =
     (rule_store_lookup pre c @ concat (map (entry_matches c n) items1))
     @ (concat (map (entry_matches c n) items2) @ rule_store_lookup post c)"
  by (simp add: rule_store_lookup_def standard_matches_def)

section \<open>Direct violations\<close>

lemma upper_char_all: "list_all (\<lambda>c. upper_char c = capital c) Enum.enum"
  by code_simp

lemma upper_char_capital: "upper_char c = capital c"
proof -
  have "c \<in> set Enum.enum"
    by (simp add: enum_UNIV)
  with upper_char_all show ?thesis
    unfolding list_all_iff by blast
qed

lemma upper_by_table:
  "upper s =
     map (\<lambda>c. case map_of (zip ''abcdefghijklmnopqrstuvwxyz'' ''ABCDEFGHIJKLMNOPQRSTUVWXYZ'') c of
                 Some C \<Rightarrow> C
               | None \<Rightarrow> c) s"
proof -
  have "upper_char =
      (\<lambda>c. case map_of (zip ''abcdefghijklmnopqrstuvwxyz'' ''ABCDEFGHIJKLMNOPQRSTUVWXYZ'') c of
              Some C \<Rightarrow> C
            | None \<Rightarrow> c)"
    by (rule ext) (simp only: upper_char_capital capital_def)
  then show ?thesis
    by (simp only: upper_def)
qed

text \<open>
  Claim C5: for every detection whose condition matches a rule entry,
  \<^const>\<open>evaluate\<close> emits a direct violation with the fields of the entry other than
  its condition (the citation, and the description and severity as the entry has them),
  the confidence of the detection and single-box evidence made of the box and the class
  name of the detection; its standard is the name of the standard in upper case, which
  for a name of ASCII characters is the name with the letters \<open>a\<close> to \<open>z\<close> replaced by
  \<open>A\<close> to \<open>Z\<close>. In particular the store with the one entry \<open>1926.100\<close> of the
  standard \<open>osha\<close> for the condition \<open>hardhat_missing\<close> and the one detection of that
  condition with confidence 0.91 and box (10, 10, 50, 80) give exactly one violation, of
  the standard \<open>OSHA\<close>.
\<close>

theorem direct_violation_carries_rule_fields:
  "(fst (evaluate self dets) = Inr vs \<longrightarrow> d \<in> set dets \<longrightarrow>
    (std_name, JObj items) \<in> set (standards self) \<longrightarrow> (cit, JObj attrs) \<in> set items \<longrightarrow>
    map_of attrs ''condition'' = Some (JStr (condition d)) \<longrightarrow>
      (\<exists>v \<in> set vs.
         citation v = cit
         \<and> description v = (case map_of attrs ''description'' of Some x \<Rightarrow> x | None \<Rightarrow> JStr '''')
         \<and> severity v = (case map_of attrs ''severity'' of Some x \<Rightarrow> x | None \<Rightarrow> JStr '''')
         \<and> v_confidence v = confidence d
         \<and> evidence v = BoxEvidence (bbox d) (class_name d)
         \<and> ((\<forall>c \<in> set std_name. (of_char c :: nat) < 128) \<longrightarrow>
              standard v =
                map (\<lambda>c. case map_of (zip ''abcdefghijklmnopqrstuvwxyz''
                                         ''ABCDEFGHIJKLMNOPQRSTUVWXYZ'') c of
                            Some C \<Rightarrow> C
                          | None \<Rightarrow> c) std_name)))
   \<and> fst (evaluate hardhat_rules [hardhat_detection cn]) =
       Inr [\<lparr>standard = ''OSHA'', citation = ''1926.100'',
             description = JStr ''Head protection required'', severity = JStr ''high'',
             v_confidence = 91 / 100, evidence = BoxEvidence (10, 10, 50, 80) cn\<rparr>]"
proof (intro conjI impI)
  assume ev: "fst (evaluate self dets) = Inr vs" and d: "d \<in> set dets"
    and e: "(std_name, JObj items) \<in> set (standards self)" "(cit, JObj attrs) \<in> set items"
      "map_of attrs ''condition'' = Some (JStr (condition d))"
  let ?m = "\<lparr>standard = upper std_name, citation = cit,
             description = dict_get attrs ''description'' (JStr ''''),
             severity = dict_get attrs ''severity'' (JStr '''')\<rparr>"
  from d have ne: "dets \<noteq> []"
    by auto
  note vs = evaluate_Inr_nonempty(2) [OF ev ne]
  from e have "?m \<in> set (rule_store_lookup (standards self) (condition d))"
    by (rule in_rule_store_lookup)
  with d have "direct_violation d ?m \<in> set vs"
    by (auto simp: vs in_direct_violations)
  moreover have "standard (direct_violation d ?m) =
      map (\<lambda>c. case map_of (zip ''abcdefghijklmnopqrstuvwxyz''
                               ''ABCDEFGHIJKLMNOPQRSTUVWXYZ'') c of
                  Some C \<Rightarrow> C
                | None \<Rightarrow> c) std_name"
    unfolding direct_violation_def by (simp only: rule_match.select_convs upper_by_table)
  ultimately show "\<exists>v \<in> set vs.
         citation v = cit
         \<and> description v = (case map_of attrs ''description'' of Some x \<Rightarrow> x | None \<Rightarrow> JStr '''')
         \<and> severity v = (case map_of attrs ''severity'' of Some x \<Rightarrow> x | None \<Rightarrow> JStr '''')
         \<and> v_confidence v = confidence d
         \<and> evidence v = BoxEvidence (bbox d) (class_name d)
         \<and> ((\<forall>c \<in> set std_name. (of_char c :: nat) < 128) \<longrightarrow>
              standard v =
                map (\<lambda>c. case map_of (zip ''abcdefghijklmnopqrstuvwxyz''
                                         ''ABCDEFGHIJKLMNOPQRSTUVWXYZ'') c of
                            Some C \<Rightarrow> C
                          | None \<Rightarrow> c) std_name)"
    by (intro bexI [of _ "direct_violation d ?m"])
       (simp_all add: direct_violation_def dict_get_def)
next
  show "fst (evaluate hardhat_rules [hardhat_detection cn]) =
       Inr [\<lparr>standard = ''OSHA'', citation = ''1926.100'',
             description = JStr ''Head protection required'', severity = JStr ''high'',
             v_confidence = 91 / 100, evidence = BoxEvidence (10, 10, 50, 80) cn\<rparr>]"
    by (simp add: evaluate_single hardhat_rules_well_shaped hardhat_detection_sel
          hardhat_lookup direct_violation_def)
qed

theorem direct_violation_carries_rule_fields_witness:
  "fst (evaluate site_rules [person_at (8 / 10) 100 100, hardhat_detection ''worker'']) =
     Inr [\<lparr>standard = ''OSHA'', citation = ''1926.100'',
           description = JStr ''Head protection required'', severity = JStr ''high'',
           v_confidence = 91 / 100, evidence = BoxEvidence (10, 10, 50, 80) ''worker''\<rparr>]
   \<and> list_all (\<lambda>c. (of_char c :: nat) < 128) ''osha''
   \<and> ''OSHA'' =
       map (\<lambda>c. case map_of (zip ''abcdefghijklmnopqrstuvwxyz''
                                ''ABCDEFGHIJKLMNOPQRSTUVWXYZ'') c of
                   Some C \<Rightarrow> C
                 | None \<Rightarrow> c) ''osha''"
proof -
  let ?attrs = "[(''condition'', JStr ''hardhat_missing''),
                 (''description'', JStr ''Head protection required''),
                 (''severity'', JStr ''high'')]"
  let ?dets = "[person_at (8 / 10) 100 100, hardhat_detection ''worker'']"
  let ?v = "\<lparr>standard = ''OSHA'', citation = ''1926.100'',
           description = JStr ''Head protection required'', severity = JStr ''high'',
           v_confidence = 91 / 100, evidence = BoxEvidence (10, 10, 50, 80) ''worker''\<rparr>"
  have ev: "fst (evaluate site_rules ?dets) = Inr [?v]"
    by (simp add: evaluate_eq site_rules_well_shaped direct_violations_def
          compound_violations_def proximity_pairs_def persons_of_def forklifts_of_def
          person_at_sel hardhat_detection_sel site_lookup_person site_lookup_hardhat
          direct_violation_def)
  have d: "hardhat_detection ''worker'' \<in> set ?dets"
    by simp
  have s: "(''osha'', JObj [(''1926.100'', JObj ?attrs)]) \<in> set (standards site_rules)"
    by (simp add: site_rules_def hardhat_document_def)
  have i: "(''1926.100'', JObj ?attrs) \<in> set [(''1926.100'', JObj ?attrs)]"
    by simp
  have c: "map_of ?attrs ''condition'' = Some (JStr (condition (hardhat_detection ''worker'')))"
    by (simp add: hardhat_detection_sel)
  have ascii: "\<forall>c \<in> set ''osha''. (of_char c :: nat) < 128"
    by simp
  from direct_violation_carries_rule_fields
         [of site_rules ?dets "[?v]" "hardhat_detection ''worker''" "''osha''"
             "[(''1926.100'', JObj ?attrs)]" "''1926.100''" ?attrs]
       ev d s i c
  have "\<exists>v \<in> set [?v]. (\<forall>c \<in> set ''osha''. (of_char c :: nat) < 128) \<longrightarrow>
      standard v =
        map (\<lambda>c. case map_of (zip ''abcdefghijklmnopqrstuvwxyz''
                                 ''ABCDEFGHIJKLMNOPQRSTUVWXYZ'') c of
                    Some C \<Rightarrow> C
                  | None \<Rightarrow> c) ''osha''"
    by blast
  then obtain v where v: "v \<in> set [?v]"
    and st: "(\<forall>c \<in> set ''osha''. (of_char c :: nat) < 128) \<longrightarrow>
      standard v =
        map (\<lambda>c. case map_of (zip ''abcdefghijklmnopqrstuvwxyz''
                                 ''ABCDEFGHIJKLMNOPQRSTUVWXYZ'') c of
                    Some C \<Rightarrow> C
                  | None \<Rightarrow> c) ''osha''"
    by blast
  from v have "v = ?v"
    by simp
  with st ascii have "standard ?v =
      map (\<lambda>c. case map_of (zip ''abcdefghijklmnopqrstuvwxyz''
                               ''ABCDEFGHIJKLMNOPQRSTUVWXYZ'') c of
                  Some C \<Rightarrow> C
                | None \<Rightarrow> c) ''osha''"
    by blast
  then have "''OSHA'' =
      map (\<lambda>c. case map_of (zip ''abcdefghijklmnopqrstuvwxyz''
                               ''ABCDEFGHIJKLMNOPQRSTUVWXYZ'') c of
                  Some C \<Rightarrow> C
                | None \<Rightarrow> c) ''osha''"
    by (simp only: rule_match.select_convs)
  moreover from ascii have "list_all (\<lambda>c. (of_char c :: nat) < 128) ''osha''"
    by (simp only: list_all_iff)
  ultimately show ?thesis
    using ev by blast
qed

section \<open>Incomplete rule entries\<close>

text \<open>
  Claim C10: lookup tolerates entries that lack fields. An entry without a
  \<open>condition\<close> field changes nothing: wherever it stands in a document, the lookup of
  any condition behaves as if the entry were not there. An entry whose condition is the
  one looked up adds exactly one match at its place and never an error of its own; a
  missing \<open>description\<close> or \<open>severity\<close> is the empty string in that match.
\<close>

theorem lookup_tolerates_incomplete_entries:
  "(map_of attrs ''condition'' = None \<longrightarrow>
      fst (lookup_condition
             \<lparr>standards = pre @ (n, JObj (items1 @ (cit, JObj attrs) # items2)) # post\<rparr> c)
      = fst (lookup_condition \<lparr>standards = pre @ (n, JObj (items1 @ items2)) # post\<rparr> c))
   \<and> (map_of attrs ''condition'' = Some (JStr c) \<longrightarrow>
      (case fst (lookup_condition \<lparr>standards = pre @ (n, JObj (items1 @ items2)) # post\<rparr> c) of
         Inl e \<Rightarrow>
           fst (lookup_condition
                  \<lparr>standards = pre @ (n, JObj (items1 @ (cit, JObj attrs) # items2)) # post\<rparr> c)
           = Inl e
       | Inr ms \<Rightarrow>
           (\<exists>before after. ms = before @ after
              \<and> fst (lookup_condition
                  \<lparr>standards = pre @ (n, JObj (items1 @ (cit, JObj attrs) # items2)) # post\<rparr> c)
                = Inr (before
                       @ [\<lparr>standard = upper n, citation = cit,
                           description = (case map_of attrs ''description'' of
                                            None \<Rightarrow> JStr '''' | Some v \<Rightarrow> v),
                           severity = (case map_of attrs ''severity'' of
                                            None \<Rightarrow> JStr '''' | Some v \<Rightarrow> v)\<rparr>]
                       @ after))))"
proof (intro conjI impI)
  assume "map_of attrs ''condition'' = None"
  then have "entry_matches c n (cit, JObj attrs) = []"
    by (simp add: entry_matches_object)
  then show "fst (lookup_condition
             \<lparr>standards = pre @ (n, JObj (items1 @ (cit, JObj attrs) # items2)) # post\<rparr> c)
      = fst (lookup_condition \<lparr>standards = pre @ (n, JObj (items1 @ items2)) # post\<rparr> c)"
    by (simp add: lookup_condition_eq well_shaped_insert_entry rule_store_lookup_insert_entry
          rule_store_lookup_without_entry del: append_assoc)
next
  let ?m = "\<lparr>standard = upper n, citation = cit,
             description = (case map_of attrs ''description'' of
                              None \<Rightarrow> JStr '''' | Some v \<Rightarrow> v),
             severity = (case map_of attrs ''severity'' of
                              None \<Rightarrow> JStr '''' | Some v \<Rightarrow> v)\<rparr>"
  let ?with = "pre @ (n, JObj (items1 @ (cit, JObj attrs) # items2)) # post"
  let ?without = "pre @ (n, JObj (items1 @ items2)) # post"
  assume "map_of attrs ''condition'' = Some (JStr c)"
  then have m: "entry_matches c n (cit, JObj attrs) = [?m]"
    by (simp add: entry_matches_object dict_get_def)
  show "case fst (lookup_condition \<lparr>standards = ?without\<rparr> c) of
         Inl e \<Rightarrow> fst (lookup_condition \<lparr>standards = ?with\<rparr> c) = Inl e
       | Inr ms \<Rightarrow>
           (\<exists>before after. ms = before @ after
              \<and> fst (lookup_condition \<lparr>standards = ?with\<rparr> c) = Inr (before @ [?m] @ after))"
  proof (cases "well_shaped ?without")
    case False
    then show ?thesis
      by (simp add: lookup_condition_eq well_shaped_insert_entry)
  next
    case True
    let ?before = "rule_store_lookup pre c @ concat (map (entry_matches c n) items1)"
    let ?after = "concat (map (entry_matches c n) items2) @ rule_store_lookup post c"
    from True have wo: "fst (lookup_condition \<lparr>standards = ?without\<rparr> c)
        = Inr (?before @ ?after)"
      unfolding lookup_condition_eq engine.select_convs rule_store_lookup_without_entry
      by simp
    from True have "well_shaped ?with"
      by (simp only: well_shaped_insert_entry)
    then have wi: "fst (lookup_condition \<lparr>standards = ?with\<rparr> c)
        = Inr (?before @ [?m] @ ?after)"
      unfolding lookup_condition_eq engine.select_convs rule_store_lookup_insert_entry m
      by simp
    show ?thesis
      unfolding wo wi sum.case by blast
  qed
qed

theorem lookup_tolerates_incomplete_entries_witness:
  "map_of [(''description'', JStr ''Keep exits clear'')] ''condition'' = None
   \<and> map_of [(''condition'', JStr ''spill'')] ''condition'' = Some (JStr ''spill'')
   \<and> fst (lookup_condition
        \<lparr>standards = [(''site'', JObj [(''7.1'', JObj [(''description'', JStr ''Keep exits clear'')])])]\<rparr>
        ''spill'') = Inr []
   \<and> fst (lookup_condition
        \<lparr>standards = [(''site'', JObj [(''7.2'', JObj [(''condition'', JStr ''spill'')])])]\<rparr>
        ''spill'')
       = Inr [\<lparr>standard = ''SITE'', citation = ''7.2'', description = JStr '''',
               severity = JStr ''''\<rparr>]"
proof -
  have none: "map_of [(''description'', JStr ''Keep exits clear'')] ''condition'' = None"
    by simp
  have some: "map_of [(''condition'', JStr ''spill'')] ''condition'' = Some (JStr ''spill'')"
    by simp
  have empty: "fst (lookup_condition \<lparr>standards = [] @ (''site'', JObj ([] @ [])) # []\<rparr> ''spill'')
      = Inr []"
    by (simp add: lookup_condition_def)
  from lookup_tolerates_incomplete_entries
         [of "[(''description'', JStr ''Keep exits clear'')]" "[]" "''site''" "[]" "''7.1''"
             "[]" "[]" "''spill''"] none empty
  have a: "fst (lookup_condition
        \<lparr>standards = [(''site'', JObj [(''7.1'', JObj [(''description'', JStr ''Keep exits clear'')])])]\<rparr>
        ''spill'') = Inr []"
    by simp
  from lookup_tolerates_incomplete_entries
         [of "[(''condition'', JStr ''spill'')]" "[]" "''site''" "[]" "''7.2''"
             "[]" "[]" "''spill''"] some empty
  have "fst (lookup_condition
        \<lparr>standards = [(''site'', JObj [(''7.2'', JObj [(''condition'', JStr ''spill'')])])]\<rparr>
        ''spill'')
       = Inr [\<lparr>standard = upper ''site'', citation = ''7.2'', description = JStr '''',
               severity = JStr ''''\<rparr>]"
    by simp
  with a none some show ?thesis
    by (simp only: upper_site)
qed

section \<open>Totality of evaluation\<close>

lemma entry_matches_Nil: "\<not> entry_has_condition c ce \<Longrightarrow> entry_matches c n ce = []"
  by (cases ce) (auto simp: entry_has_condition_def entry_matches_def condition_test_iff
       split: json.splits)

lemma standard_matches_Nil:
  assumes "\<not> (case snd sm of JObj items \<Rightarrow> list_ex (entry_has_condition c) items | _ \<Rightarrow> False)"
  shows "standard_matches c sm = []"
proof (cases "snd sm")
  case (JObj items)
  with assms have "\<forall>ce \<in> set items. entry_matches c (fst sm) ce = []"
    by (auto simp: list_ex_iff entry_matches_Nil)
  with JObj show ?thesis
    by (simp add: standard_matches_def)
qed (simp_all add: standard_matches_def)

lemma rule_store_lookup_absent:
  "\<not> condition_present stds c \<Longrightarrow> rule_store_lookup stds c = []"
  by (simp add: condition_present_def rule_store_lookup_def list_ex_iff standard_matches_Nil)

lemma direct_violations_append:
  "direct_violations stds (xs @ ys) = direct_violations stds xs @ direct_violations stds ys"
  by (simp add: direct_violations_def)

lemma direct_violations_drop:
  "rule_store_lookup stds (condition d) = [] \<Longrightarrow>
   direct_violations stds (xs @ d # ys) = direct_violations stds (xs @ ys)"
  by (simp add: direct_violations_def)

lemma compound_violations_drop:
  "condition d \<noteq> ''person'' \<Longrightarrow> condition d \<noteq> ''forklift'' \<Longrightarrow>
   compound_violations stds (xs @ d # ys) = compound_violations stds (xs @ ys)"
  by (simp add: compound_violations_def proximity_pairs_def persons_of_def forklifts_of_def)

lemma stem_osha_json: "stem ''osha.json'' = ''osha''"
  by code_simp

lemma lower_osha: "lower ''osha'' = ''osha''"
  by code_simp

lemma ends_with_osha_json: "ends_with ''.json'' ''osha.json''"
  by code_simp

text \<open>
  Claim C6, as stated: given a successfully constructed engine, evaluation never
  fails. The constructor accepts every document that parses, whatever its shape: a
  directory whose \<^verbatim>\<open>osha.json\<close> holds a JSON array gives an engine, and on that
  engine a lookup and the evaluation of one detection raise \<^verbatim>\<open>AttributeError\<close>.
\<close>

theorem evaluate_fails_on_unshaped_document:
  "engine_init (Listing [(''osha.json'', Document (JArr []))]) = Inr unshaped_rules
   \<and> fst (lookup_condition unshaped_rules ''hardhat_missing'') = Inl AttributeError
   \<and> fst (evaluate unshaped_rules [hardhat_detection ''hardhat_missing''])
       = Inl AttributeError"
proof -
  have "engine_init (Listing [(''osha.json'', Document (JArr []))]) = Inr unshaped_rules"
    by (simp add: engine_init_def glob_json_def ends_with_osha_json stem_osha_json lower_osha
          unshaped_rules_def)
  moreover have "fst (lookup_condition unshaped_rules ''hardhat_missing'') = Inl AttributeError"
    by (simp add: lookup_condition_def unshaped_rules_def)
  moreover have "fst (evaluate unshaped_rules [hardhat_detection ''hardhat_missing''])
       = Inl AttributeError"
    by (simp add: evaluate_def lookup_condition_def unshaped_rules_def)
  ultimately show ?thesis
    by blast
qed

text \<open>
  Claim C6, amended: an empty detection list gives an empty violation list on every
  engine; and on an engine whose loaded documents are all mappings from citation
  identifiers to objects, evaluation always returns, the lookup of a condition that no
  entry has returns the empty sequence, and a detection with such a condition
  contributes nothing: alone it gives no violation, and unless it is a person or a
  forklift, leaving it out of any detection list does not change the result.
\<close>

theorem evaluate_total_on_well_shaped_store:
  "fst (evaluate self []) = Inr []
   \<and> (well_shaped (standards self) \<longrightarrow>
        (\<exists>vs. fst (evaluate self dets) = Inr vs)
        \<and> (\<not> condition_present (standards self) c \<longrightarrow>
             fst (lookup_condition self c) = Inr []
             \<and> (condition d = c \<longrightarrow> fst (evaluate self [d]) = Inr [])
             \<and> (condition d = c \<longrightarrow> c \<noteq> ''person'' \<longrightarrow> c \<noteq> ''forklift'' \<longrightarrow>
                  evaluate self (xs @ d # ys) = evaluate self (xs @ ys))))"
proof (intro conjI impI)
  show "fst (evaluate self []) = Inr []"
    by (simp add: evaluate_def)
next
  assume "well_shaped (standards self)"
  then show "\<exists>vs. fst (evaluate self dets) = Inr vs"
    by (simp add: evaluate_eq)
next
  assume "well_shaped (standards self)" and "\<not> condition_present (standards self) c"
  then show "fst (lookup_condition self c) = Inr []"
    by (simp add: lookup_condition_eq rule_store_lookup_absent)
next
  assume "well_shaped (standards self)" and "\<not> condition_present (standards self) c"
    and "condition d = c"
  then show "fst (evaluate self [d]) = Inr []"
    by (simp add: evaluate_single rule_store_lookup_absent)
next
  assume ws: "well_shaped (standards self)"
    and absent: "\<not> condition_present (standards self) c"
    and d: "condition d = c" "c \<noteq> ''person''" "c \<noteq> ''forklift''"
  from absent d(1) have "rule_store_lookup (standards self) (condition d) = []"
    by (simp add: rule_store_lookup_absent)
  then have "direct_violations (standards self) (xs @ d # ys)
      = direct_violations (standards self) (xs @ ys)"
    by (rule direct_violations_drop)
  moreover from d have "compound_violations (standards self) (xs @ d # ys)
      = compound_violations (standards self) (xs @ ys)"
    by (intro compound_violations_drop) simp_all
  ultimately show "evaluate self (xs @ d # ys) = evaluate self (xs @ ys)"
    using ws by (simp add: evaluate_eq)
qed

theorem evaluate_total_on_well_shaped_store_witness:
  "well_shaped (standards hardhat_rules)
   \<and> \<not> condition_present (standards hardhat_rules) ''spill''
   \<and> fst (lookup_condition hardhat_rules ''spill'') = Inr []
   \<and> (\<exists>vs. fst (evaluate hardhat_rules [hardhat_detection ''worker'']) = Inr vs)"
proof -
  have absent: "\<not> condition_present (standards hardhat_rules) ''spill''"
    by (simp add: condition_present_def entry_has_condition_def hardhat_rules_def
          hardhat_document_def)
  from evaluate_total_on_well_shaped_store
         [of hardhat_rules "[hardhat_detection ''worker'']" "''spill''"]
       hardhat_rules_well_shaped absent
  show ?thesis
    by blast
qed

section \<open>Construction of the rule store\<close>

lemma load_standards_fails_iff:
  "(\<exists>e. load_standards self files = Inl e) \<longleftrightarrow> (\<exists>nf \<in> set files. \<exists>e. snd nf = Raises e)"
proof (induction files arbitrary: self)
  case Nil
  show ?case by simp
next
  case (Cons nf files)
  obtain name f where nf: "nf = (name, f)"
    by (cases nf)
  show ?case
    by (cases f) (simp_all add: nf Cons.IH Let_def)
qed

lemma load_standards_error_source:
  "load_standards self files = Inl e \<Longrightarrow> \<exists>name. (name, Raises e) \<in> set files"
proof (induction files arbitrary: self)
  case Nil
  then show ?case by simp
next
  case (Cons nf files)
  obtain name f where nf: "nf = (name, f)"
    by (cases nf)
  from Cons.prems show ?case
    by (cases f) (auto simp: nf Let_def dest: Cons.IH)
qed

text \<open>
  Claim C3, as stated: construction fails when the rule directory is missing or
  unreadable. The glob over a path that is missing, or over a directory whose listing is
  denied, yields no file and raises nothing, so the constructor returns an engine with
  an empty rule store.
\<close>

theorem missing_directory_gives_empty_engine:
  "engine_init Missing = Inr \<lparr>standards = []\<rparr>
   \<and> engine_init NoPermission = Inr \<lparr>standards = []\<rparr>"
  by (simp add: engine_init_def glob_json_def)

text \<open>
  Claim C3, amended: construction fails whenever the directory path cannot be examined
  or a document of the directory whose name ends in \<^verbatim>\<open>.json\<close> cannot be opened or does
  not parse. The failure is the exception of the path or of that document (the engine
  has no load error of its own) leaving the constructor, so the caller gets no engine at
  all, partial or not; a directory that was listed fails for no other reason. A missing
  directory, and one whose listing is denied, are no failure: they give an engine with
  an empty rule store.
\<close>

theorem engine_init_fails_when_document_fails:
  "engine_init Missing = Inr \<lparr>standards = []\<rparr>
   \<and> engine_init NoPermission = Inr \<lparr>standards = []\<rparr>
   \<and> engine_init Inaccessible = Inl OSError
   \<and> ((\<exists>e. engine_init (Listing entries) = Inl e) \<longleftrightarrow>
        (\<exists>(name, f) \<in> set entries. ends_with ''.json'' name \<and> (\<exists>e. f = Raises e)))
   \<and> (engine_init (Listing entries) = Inl e \<longrightarrow>
        (\<exists>name. (name, Raises e) \<in> set entries \<and> ends_with ''.json'' name))"
proof (intro conjI impI)
  show "engine_init Missing = Inr \<lparr>standards = []\<rparr>"
    and "engine_init NoPermission = Inr \<lparr>standards = []\<rparr>"
    and "engine_init Inaccessible = Inl OSError"
    by (simp_all add: engine_init_def glob_json_def)
next
  have init: "engine_init (Listing entries) =
      load_standards \<lparr>standards = []\<rparr> (filter (\<lambda>(name, f). ends_with ''.json'' name) entries)"
    by (simp add: engine_init_def glob_json_def)
  show "(\<exists>e. engine_init (Listing entries) = Inl e) \<longleftrightarrow>
        (\<exists>(name, f) \<in> set entries. ends_with ''.json'' name \<and> (\<exists>e. f = Raises e))"
    unfolding init load_standards_fails_iff
  proof
    assume "\<exists>nf \<in> set (filter (\<lambda>(name, f). ends_with ''.json'' name) entries).
              \<exists>e. snd nf = Raises e"
    then obtain name f e where "(name, f) \<in> set entries" "ends_with ''.json'' name"
      "f = Raises e"
      by auto
    then show "\<exists>(name, f) \<in> set entries. ends_with ''.json'' name \<and> (\<exists>e. f = Raises e)"
      by blast
  next
    assume "\<exists>(name, f) \<in> set entries. ends_with ''.json'' name \<and> (\<exists>e. f = Raises e)"
    then obtain name e where "(name, Raises e) \<in> set entries" "ends_with ''.json'' name"
      by auto
    then have "(name, Raises e) \<in> set (filter (\<lambda>(name, f). ends_with ''.json'' name) entries)"
      by simp
    then show "\<exists>nf \<in> set (filter (\<lambda>(name, f). ends_with ''.json'' name) entries).
              \<exists>e. snd nf = Raises e"
      by force
  qed
next
  assume "engine_init (Listing entries) = Inl e"
  then have "load_standards \<lparr>standards = []\<rparr>
      (filter (\<lambda>(name, f). ends_with ''.json'' name) entries) = Inl e"
    by (simp add: engine_init_def glob_json_def)
  then obtain name where
    "(name, Raises e) \<in> set (filter (\<lambda>(name, f). ends_with ''.json'' name) entries)"
    by (blast dest: load_standards_error_source)
  then show "\<exists>name. (name, Raises e) \<in> set entries \<and> ends_with ''.json'' name"
    by auto
qed

theorem engine_init_fails_when_document_fails_witness:
  "engine_init (Listing [(''osha.json'', Document hardhat_document),
                         (''notes.txt'', Raises OSError),
                         (''site.json'', Raises ValueError)]) = Inl ValueError
   \<and> engine_init (Listing [(''osha.json'', Document hardhat_document),
                           (''notes.txt'', Raises OSError)]) = Inr hardhat_rules"
proof -
  let ?entries = "[(''osha.json'', Document hardhat_document),
                   (''notes.txt'', Raises OSError), (''site.json'', Raises ValueError)]"
  have site: "ends_with ''.json'' ''site.json''"
    and not_json: "\<not> ends_with ''.json'' ''notes.txt''"
    by code_simp+
  have "\<exists>(name, f) \<in> set ?entries. ends_with ''.json'' name \<and> (\<exists>e. f = Raises e)"
    by (simp add: site)
  with engine_init_fails_when_document_fails [of ?entries]
  obtain e where e: "engine_init (Listing ?entries) = Inl e"
    by blast
  with engine_init_fails_when_document_fails [of ?entries e]
  obtain name where "(name, Raises e) \<in> set ?entries" and "ends_with ''.json'' name"
    by blast
  then have "e = ValueError"
    using not_json by auto
  with e have "engine_init (Listing ?entries) = Inl ValueError"
    by simp
  moreover have "engine_init (Listing [(''osha.json'', Document hardhat_document),
                           (''notes.txt'', Raises OSError)]) = Inr hardhat_rules"
    by (simp add: engine_init_def glob_json_def ends_with_osha_json not_json stem_osha_json
          lower_osha hardhat_rules_def)
  ultimately show ?thesis
    by blast
qed

section \<open>No deduplication\<close>

lemma is_direct_direct_violation [simp]: "is_direct (direct_violation d m)"
  by (simp add: is_direct_def)

lemma is_direct_proximity_violation [simp]: "\<not> is_direct (proximity_violation p f m)"
  by (simp add: is_direct_def)

lemma filter_direct_violations:
  "filter is_direct (direct_violations stds dets) = direct_violations stds dets"
  "filter (\<lambda>v. \<not> is_direct v) (direct_violations stds dets) = []"
  by (auto simp: in_direct_violations filter_empty_conv filter_id_conv)

lemma filter_compound_violations:
  "filter is_direct (compound_violations stds dets) = []"
  "filter (\<lambda>v. \<not> is_direct v) (compound_violations stds dets) = compound_violations stds dets"
  by (auto simp: in_compound_violations filter_empty_conv filter_id_conv)

lemma length_direct_violations:
  "length (direct_violations stds dets) =
     (\<Sum>d \<in> set dets. count_list dets d * length (rule_store_lookup stds (condition d)))"
proof -
  have "length (direct_violations stds dets) =
      sum_list (map (\<lambda>d. length (rule_store_lookup stds (condition d))) dets)"
    by (simp add: direct_violations_def length_concat comp_def)
  then show ?thesis
    by (simp add: sum_list_map_eq_sum_count)
qed

lemma length_compound_violations:
  "length (compound_violations stds dets) =
     length (proximity_pairs dets)
     * length (rule_store_lookup stds ''forklift_pedestrian_proximity'')"
proof -
  have "length (concat (map (pair_violations stds) pairs)) =
      length pairs * length (rule_store_lookup stds ''forklift_pedestrian_proximity'')"
    for pairs
    by (induction pairs) (simp_all add: pair_violations_def)
  then show ?thesis
    by (simp add: compound_violations_def)
qed

lemma evaluate_replicate:
  assumes "well_shaped (standards self)"
  shows "fst (evaluate self (replicate k d)) =
     Inr (concat (replicate k
            (map (direct_violation d) (rule_store_lookup (standards self) (condition d)))))"
proof -
  have "persons_of (replicate k d) = [] \<or> forklifts_of (replicate k d) = []"
    by (cases "condition d = ''person''")
       (simp_all add: persons_of_def forklifts_of_def filter_empty_conv)
  then have "compound_violations (standards self) (replicate k d) = []"
    by (rule compound_violations_guard)
  with assms show ?thesis
    by (simp add: evaluate_eq direct_violations_def)
qed

text \<open>
  Claim C9: nothing is deduplicated. When every lookup returns, the number of direct
  violations is the sum, over the distinct detections, of the number of copies of the
  detection times the number of rule entries of its condition, so \<open>k\<close> identical
  detections with \<open>n\<close> matching entries give \<open>k * n\<close> direct violations; a list of
  \<open>k\<close> copies of one detection gives \<open>k\<close> times the same block of violations. The
  number of compound violations is the number of qualifying (person, forklift) pairs,
  counted by position in the input, times the number of entries of the synthesized
  condition, whether or not the violations are equal.
\<close>

theorem no_deduplication:
  assumes "\<And>c. fst (lookup_condition self c) = Inr (look c)"
  shows "(\<exists>vs. fst (evaluate self dets) = Inr vs
           \<and> length (filter is_direct vs) =
               (\<Sum>d \<in> set dets. count_list dets d * length (look (condition d)))
           \<and> length (filter (\<lambda>v. \<not> is_direct v) vs) =
               length (filter (\<lambda>(p, f). euclidean_distance (bbox_center (bbox p))
                                          (bbox_center (bbox f)) < 200)
                         (List.product (filter (\<lambda>d. condition d = ''person'') dets)
                                       (filter (\<lambda>d. condition d = ''forklift'') dets)))
               * length (look ''forklift_pedestrian_proximity''))
         \<and> fst (evaluate self (replicate k d)) =
             Inr (concat (replicate k (map (direct_violation d) (look (condition d)))))"
proof -
  from assms [of "[]"] have ws: "well_shaped (standards self)"
    by (simp add: lookup_condition_eq split: if_splits)
  with assms have look: "look c = rule_store_lookup (standards self) c" for c
    using assms [of c] by (simp add: lookup_condition_eq)
  let ?vs = "direct_violations (standards self) dets @ compound_violations (standards self) dets"
  have "(\<lambda>pf. near (fst pf) (snd pf)) =
        (\<lambda>(p, f). euclidean_distance (bbox_center (bbox p)) (bbox_center (bbox f)) < 200)"
    by (auto simp: near_def)
  then have pairs: "proximity_pairs dets =
      filter (\<lambda>(p, f). euclidean_distance (bbox_center (bbox p)) (bbox_center (bbox f)) < 200)
        (List.product (filter (\<lambda>d. condition d = ''person'') dets)
                      (filter (\<lambda>d. condition d = ''forklift'') dets))"
    by (simp add: proximity_pairs_def persons_of_def forklifts_of_def)
  have "fst (evaluate self dets) = Inr ?vs"
    using ws by (simp add: evaluate_eq)
  moreover have "length (filter is_direct ?vs) =
      (\<Sum>d \<in> set dets. count_list dets d * length (look (condition d)))"
    by (simp add: filter_direct_violations filter_compound_violations
          length_direct_violations look)
  moreover have "length (filter (\<lambda>v. \<not> is_direct v) ?vs) =
      length (filter (\<lambda>(p, f). euclidean_distance (bbox_center (bbox p))
                                 (bbox_center (bbox f)) < 200)
                (List.product (filter (\<lambda>d. condition d = ''person'') dets)
                              (filter (\<lambda>d. condition d = ''forklift'') dets)))
      * length (look ''forklift_pedestrian_proximity'')"
    by (simp only: filter_append filter_direct_violations filter_compound_violations
          append_Nil length_compound_violations look pairs)
  moreover have "fst (evaluate self (replicate k d)) =
      Inr (concat (replicate k (map (direct_violation d) (look (condition d)))))"
    using ws by (simp add: evaluate_replicate look)
  ultimately show ?thesis
    by blast
qed

theorem no_deduplication_witness:
  "fst (evaluate site_rules [hardhat_detection ''worker'', hardhat_detection ''worker'']) =
     Inr [direct_violation (hardhat_detection ''worker'')
            \<lparr>standard = ''OSHA'', citation = ''1926.100'',
             description = JStr ''Head protection required'', severity = JStr ''high''\<rparr>,
          direct_violation (hardhat_detection ''worker'')
            \<lparr>standard = ''OSHA'', citation = ''1926.100'',
             description = JStr ''Head protection required'', severity = JStr ''high''\<rparr>]
   \<and> fst (evaluate site_rules
            [person_at (8 / 10) 100 100, person_at (8 / 10) 100 100,
             forklift_at (6 / 10) 150 100]) =
     Inr [proximity_violation (person_at (8 / 10) 100 100) (forklift_at (6 / 10) 150 100)
            \<lparr>standard = ''SITE'', citation = ''1910.178'',
             description = JStr ''Struck-by hazard'', severity = JStr ''''\<rparr>,
          proximity_violation (person_at (8 / 10) 100 100) (forklift_at (6 / 10) 150 100)
            \<lparr>standard = ''SITE'', citation = ''1910.178'',
             description = JStr ''Struck-by hazard'', severity = JStr ''''\<rparr>]"
proof -
  have h: "fst (lookup_condition site_rules c) = Inr (rule_store_lookup (standards site_rules) c)"
    for c
    by (simp add: lookup_condition_eq site_rules_well_shaped)
  have two: "replicate 2 x = [x, x]" for x :: detection
    by (simp add: numeral_2_eq_2)
  from no_deduplication [of site_rules "rule_store_lookup (standards site_rules)" "[]" 2
         "hardhat_detection ''worker''", OF h]
  have "fst (evaluate site_rules [hardhat_detection ''worker'', hardhat_detection ''worker'']) =
     Inr [direct_violation (hardhat_detection ''worker'')
            \<lparr>standard = ''OSHA'', citation = ''1926.100'',
             description = JStr ''Head protection required'', severity = JStr ''high''\<rparr>,
          direct_violation (hardhat_detection ''worker'')
            \<lparr>standard = ''OSHA'', citation = ''1926.100'',
             description = JStr ''Head protection required'', severity = JStr ''high''\<rparr>]"
    by (simp add: two hardhat_detection_sel site_lookup_hardhat numeral_2_eq_2)
  moreover have "fst (evaluate site_rules
            [person_at (8 / 10) 100 100, person_at (8 / 10) 100 100,
             forklift_at (6 / 10) 150 100]) =
     Inr [proximity_violation (person_at (8 / 10) 100 100) (forklift_at (6 / 10) 150 100)
            \<lparr>standard = ''SITE'', citation = ''1910.178'',
             description = JStr ''Struck-by hazard'', severity = JStr ''''\<rparr>,
          proximity_violation (person_at (8 / 10) 100 100) (forklift_at (6 / 10) 150 100)
            \<lparr>standard = ''SITE'', citation = ''1910.178'',
             description = JStr ''Struck-by hazard'', severity = JStr ''''\<rparr>]"
    by (simp add: evaluate_eq site_rules_well_shaped direct_violations_def
          compound_violations_def proximity_pairs_def persons_of_def forklifts_of_def
          pair_violations_def person_at_sel forklift_at_sel site_lookup_proximity
          site_lookup_person site_lookup_forklift near_at)
  ultimately show ?thesis
    by blast
qed

section \<open>The proximity test on computed distances\<close>














end
